theory Spec2Isabelle
  imports Complex_Main
begin

section \<open>Python values, paths and exceptions\<close>

text \<open>
  Values a reader may hand back. \<open>PyObj\<close> stands for any object the code below never
  inspects (an array, a metadata dict); it is truthy.
\<close>

datatype pyval =
    PyNone
  | PyBool bool
  | PyInt int
  | PyStr string
  | PyList "pyval list"
  | PyTuple "pyval list"
  | PyObj nat

fun truthy :: "pyval \<Rightarrow> bool" where
  "truthy PyNone = False"
| "truthy (PyBool b) = b"
| "truthy (PyInt i) = (i \<noteq> 0)"
| "truthy (PyStr s) = (s \<noteq> [])"
| "truthy (PyList xs) = (xs \<noteq> [])"
| "truthy (PyTuple xs) = (xs \<noteq> [])"
| "truthy (PyObj n) = True"

text \<open>\<open>path: Union[str, Sequence[str]]\<close>: one path or a sequence of paths (a stack).\<close>

datatype path = PathStr string | PathSeq "string list"

text \<open>\<open>isinstance(path, (str, pathlib.Path))\<close> and \<open>isinstance(path, (tuple, list))\<close>.\<close>

fun is_single :: "path \<Rightarrow> bool" where
  "is_single (PathStr s) = True"
| "is_single (PathSeq ps) = False"

text \<open>Truthiness of an \<open>Optional[str]\<close> plugin name: \<open>None\<close> and \<open>''\<close> are falsy.\<close>

fun name_given :: "string option \<Rightarrow> bool" where
  "name_given None = False"
| "name_given (Some s) = (s \<noteq> [])"

text \<open>
  The messages built with \<open>trans._\<close>, by their template and arguments, and the
  exceptions. \<open>KeyboardInterrupt\<close> stands for the exceptions that are not instances of
  \<open>Exception\<close>, which \<open>except Exception\<close> lets through. A hook implementation is
  named by its position in the hook caller's call order.
\<close>

datatype message =
    NoRegisteredReader string "string set"
  | PluginDoesNotSupport string path
  | NoPluginFoundStack string
  | NoPluginFoundSingle path
  | NoRegisteredWriter string "string set"
  | RequestedPluginNotCapable string "string list"
  | UnableToFindWriter "string list"
  | NoDataWritten nat path
  | OtherMessage string

datatype exn =
    ValueError message
  | IndexError
  | KeyError string
  | AttributeError
  | PluginCallError "nat option" exn
  | PluginError string
  | KeyboardInterrupt

fun is_Exception :: "exn \<Rightarrow> bool" where
  "is_Exception KeyboardInterrupt = False"
| "is_Exception e = True"

fun is_ValueError :: "exn \<Rightarrow> bool" where
  "is_ValueError (ValueError m) = True"
| "is_ValueError e = False"

section \<open>The null-layer sentinel (napari/plugins/io.py)\<close>

definition is_null_layer_sentinel :: "pyval \<Rightarrow> bool" where
  "is_null_layer_sentinel layer_data =
     (case layer_data of
        PyList xs \<Rightarrow>
          length xs = 1 \<and>
          (case xs ! 0 of
             PyTuple ys \<Rightarrow> length ys = 1 \<and> ys ! 0 = PyNone
           | _ \<Rightarrow> False)
      | _ \<Rightarrow> False)"


section \<open>The environment of the plugin I/O dispatch\<close>

text \<open>
  \<open>layer.as_layer_data_tuple()\<close> is \<open>(data, meta, layer_type)\<close>. A reader function
  maps a path to layer data or raises; a writer function maps a path and layer data
  tuples to the written paths or raises.
\<close>

type_synonym layer_data = "pyval \<times> pyval \<times> string"
type_synonym reader_function = "path \<Rightarrow> exn + pyval"
type_synonym writer_function = "path \<Rightarrow> layer_data list \<Rightarrow> exn + string list"

text \<open>
  A first-generation hook caller (class \<open>HookCaller\<close> of the external package
  \<open>napari_plugin_engine\<close>): its implementations in call order, each the name of its
  plugin and its function, which returns \<open>None\<close>, returns a result, or raises.
\<close>

type_synonym ('a, 'r) hook_caller = "(string \<times> ('a \<Rightarrow> exn + 'r option)) list"

datatype hook = NapariGetReader | NapariGetWriter | NapariWriteLayer string

text \<open>
  The returned \<open>hookimpl\<close>: the namedtuple built from an npe2 reader's plugin name, or an
  implementation of the first-generation hook.
\<close>

datatype implref = Npe2Impl string | HookImpl nat

text \<open>What the functions do to the world outside, in order.\<close>

datatype event =
    ImportNpe2
  | Npe2ReadGetReader path "string option"
  | Npe2Write path "string option"
  | Npe2WriterExec
  | GetReaderForExtension string
  | GetWriterForExtension string
  | HookCall hook nat
  | ReaderCall "nat option" path
  | WriterCall "nat option" path
  | LogPluginError nat
  | LogErrorSummary nat
  | LogFallback
  | LogWriting
  | Warn message

text \<open>
  An npe2 writer contribution (\<open>_writer\<close>): the \<open>max()\<close> of each of its layer type
  constraints and its \<open>exec\<close>, which is handed \<open>(path, data, meta)\<close> or
  \<open>(path, layer_data)\<close> and returns a string, a list of strings or \<open>None\<close>.
\<close>

datatype exec_args = ArgsOne path pyval pyval | ArgsMany path "layer_data list"
datatype exec_result = ResStr string | ResList "string list" | ResNone

record writer_contribution =
  layer_type_constraints_max :: "int list"
  writer_exec :: "exec_args \<Rightarrow> exn + exec_result"

text \<open>
  Everything \<open>napari/plugins/io.py\<close> calls and does not define: whether \<open>npe2\<close> can be
  imported and its \<open>read_get_reader\<close> (layer data and the reader's plugin name) and
  \<open>write\<close>; \<open>napari.utils.misc.abspath_or_url\<close>; \<open>os.path.splitext\<close>; the plugin
  manager's registered plugin names, its extension tables and its hook callers.
\<close>

record env =
  npe2_importable :: bool
  read_get_reader :: "path \<Rightarrow> string option \<Rightarrow> exn + (pyval \<times> string)"
  npe2_write :: "path \<Rightarrow> layer_data list \<Rightarrow> string option \<Rightarrow> exn + string list"
  abspath_or_url :: "path \<Rightarrow> path"
  splitext :: "string \<Rightarrow> string \<times> string"
  plugins :: "string list"
  get_reader_for_extension :: "string \<Rightarrow> string option"
  get_writer_for_extension :: "string \<Rightarrow> string option"
  napari_get_reader :: "(path, reader_function) hook_caller"
  napari_get_writer :: "(path \<times> string list, writer_function) hook_caller"
  napari_write :: "string \<Rightarrow> (path \<times> pyval \<times> pyval, string) hook_caller"

text \<open>A computation: what it returns or raises, and the events it caused.\<close>

type_synonym 'a res = "(exn + 'a) \<times> event list"

definition prepend :: "event list \<Rightarrow> 'a res \<Rightarrow> 'a res" where
  "prepend t m = (fst m, t @ snd m)"

section \<open>The first-generation hook caller\<close>

text \<open>
  \<open>get_hookimpls\<close>, \<open>get_plugin_implementation\<close>, \<open>_call_plugin\<close> and
  \<open>call_with_result_obj\<close> of \<open>napari_plugin_engine.HookCaller\<close>, as
  \<open>napari/plugins/io.py\<close> relies on them: implementations are tried in call order, those
  in \<open>_skip_impls\<close> left out; the first result that is not \<open>None\<close> ends the call and
  names its implementation; an \<open>Exception\<close> of a hook implementation ends the call
  and reaches the caller inside a \<open>PluginCallError\<close> naming the implementation (the
  loop reads \<open>result.result\<close>, which "will raise exceptions if any occurred"), and an
  exception outside \<open>Exception\<close> goes up as it is. Which exception
  \<open>_call_plugin\<close> raises for a plugin without an implementation of the hook is the
  library's choice; \<open>AttributeError\<close> stands for it, and no property below rests on it.
\<close>

definition hookimpl_names :: "('a, 'r) hook_caller \<Rightarrow> string set" where
  "hookimpl_names hc = set (map fst hc)"

fun find_impl :: "nat \<Rightarrow> ('a, 'r) hook_caller \<Rightarrow> string \<Rightarrow> nat option" where
  "find_impl i [] name = None"
| "find_impl i ((n, f) # rest) name = (if n = name then Some i else find_impl (Suc i) rest name)"

definition get_plugin_implementation :: "('a, 'r) hook_caller \<Rightarrow> string \<Rightarrow> nat option" where
  "get_plugin_implementation hc name = find_impl 0 hc name"

definition wrap_hook_error :: "nat \<Rightarrow> exn \<Rightarrow> exn" where
  "wrap_hook_error i e = (if is_Exception e then PluginCallError (Some i) e else e)"

definition call_plugin :: "hook \<Rightarrow> ('a, 'r) hook_caller \<Rightarrow> string \<Rightarrow> 'a \<Rightarrow> ('r option) res" where
  "call_plugin h hc name a =
     (case get_plugin_implementation hc name of
        None \<Rightarrow> (Inl AttributeError, [])
      | Some i \<Rightarrow>
          (case snd (hc ! i) a of
             Inl e \<Rightarrow> (Inl (wrap_hook_error i e), [HookCall h i])
           | Inr r \<Rightarrow> (Inr r, [HookCall h i])))"

fun multicall :: "hook \<Rightarrow> (nat \<times> string \<times> ('a \<Rightarrow> exn + 'r option)) list \<Rightarrow> 'a \<Rightarrow> (('r \<times> nat) option) res" where
  "multicall h [] a = (Inr None, [])"
| "multicall h ((i, n, f) # rest) a =
     (case f a of
        Inl e \<Rightarrow> (Inl (wrap_hook_error i e), [HookCall h i])
      | Inr None \<Rightarrow> prepend [HookCall h i] (multicall h rest a)
      | Inr (Some r) \<Rightarrow> (Inr (Some (r, i)), [HookCall h i]))"

definition call_with_result_obj ::
    "hook \<Rightarrow> ('a, 'r) hook_caller \<Rightarrow> 'a \<Rightarrow> nat list \<Rightarrow> (('r \<times> nat) option) res" where
  "call_with_result_obj h hc a skip_impls =
     multicall h (filter (\<lambda>(i, imp). i \<notin> set skip_impls) (enumerate 0 hc)) a"


section \<open>Reading (napari/plugins/io.py)\<close>

text \<open>
  \<open>_read_with_npe2\<close>: \<open>None\<close> when \<open>npe2\<close> cannot be imported or \<open>read_get_reader\<close>
  raises \<open>ValueError\<close>; any other exception goes up.
\<close>

definition read_with_npe2 :: "env \<Rightarrow> path \<Rightarrow> string option \<Rightarrow> ((pyval \<times> implref) option) res" where
  "read_with_npe2 env path plugin =
     (if \<not> npe2_importable env then (Inr None, [ImportNpe2])
      else
        (case read_get_reader env path plugin of
           Inl e \<Rightarrow>
             (if is_ValueError e then (Inr None, [ImportNpe2, Npe2ReadGetReader path plugin])
              else (Inl e, [ImportNpe2, Npe2ReadGetReader path plugin]))
         | Inr (layer_data, reader_plugin_name) \<Rightarrow>
             (Inr (Some (layer_data, Npe2Impl reader_plugin_name)),
              [ImportNpe2, Npe2ReadGetReader path plugin])))"

text \<open>The local variables of the \<open>while True\<close> loop of \<open>read_data_with_plugins\<close>.\<close>

record loop_state =
  cur_layer_data :: pyval
  cur_hookimpl :: "implref option"
  errors :: "exn list"
  skip_impls :: "nat list"

lemma multicall_result_mem:
  "multicall h xs a = (Inr (Some (r, i)), t) \<Longrightarrow> i \<in> fst ` set xs"
proof (induction xs arbitrary: t)
  case Nil
  then show ?case by simp
next
  case (Cons x xs)
  obtain j n f where x: "x = (j, n, f)" by (cases x)
  show ?case
  proof (cases "f a")
    case (Inl e)
    with Cons.prems x show ?thesis by simp
  next
    case (Inr ro)
    show ?thesis
    proof (cases ro)
      case None
      with Cons.prems x Inr have "multicall h xs a = (Inr (Some (r, i)), snd (multicall h xs a))"
        by (simp add: prepend_def prod_eq_iff)
      from Cons.IH [OF this] show ?thesis by simp
    next
      case (Some r')
      with Cons.prems x Inr show ?thesis by simp
    qed
  qed
qed

lemma call_with_result_obj_fresh:
  assumes "call_with_result_obj h hc a skip = (Inr (Some (r, i)), t)"
  shows "i < length hc \<and> i \<notin> set skip"
proof -
  from multicall_result_mem [OF assms [unfolded call_with_result_obj_def]]
  obtain imp where "(i, imp) \<in> set (enumerate 0 hc)" and "i \<notin> set skip"
    by (auto split: prod.splits)
  then show ?thesis
    by (simp add: in_set_enumerate_eq)
qed

function read_loop :: "env \<Rightarrow> path \<Rightarrow> loop_state \<Rightarrow> loop_state res" where
  "read_loop env path st =
     (case call_with_result_obj NapariGetReader (napari_get_reader env) path (skip_impls st) of
        (Inl e, t) \<Rightarrow> (Inl e, t)
      | (Inr None, t) \<Rightarrow> (Inr st, t)
      | (Inr (Some (reader, i)), t) \<Rightarrow>
          (case reader path of
             Inr layer_data \<Rightarrow>
               (if truthy layer_data
                then (Inr (st\<lparr>cur_layer_data := layer_data, cur_hookimpl := Some (HookImpl i)\<rparr>),
                      t @ [ReaderCall (Some i) path])
                else prepend (t @ [ReaderCall (Some i) path])
                       (read_loop env path
                          (st\<lparr>cur_layer_data := layer_data, skip_impls := skip_impls st @ [i]\<rparr>)))
           | Inl exc \<Rightarrow>
               (if is_Exception exc
                then prepend (t @ [ReaderCall (Some i) path, LogPluginError i])
                       (read_loop env path
                          (st\<lparr>errors := errors st @ [PluginCallError (Some i) exc],
                              skip_impls := skip_impls st @ [i]\<rparr>))
                else (Inl exc, t @ [ReaderCall (Some i) path]))))"
  by pat_completeness auto
termination
proof (relation "measure (\<lambda>(env, path, st). card ({..<length (napari_get_reader env)} - set (skip_impls st)))")
  show "wf (measure (\<lambda>(env, path, st). card ({..<length (napari_get_reader env)} - set (skip_impls st))))"
    by simp
next
  fix env path st x y t z reader i layer_data
  assume "(x, t) = call_with_result_obj NapariGetReader (napari_get_reader env) path (skip_impls st)"
    and "x = Inr y" and "y = Some z" and "(reader, i) = z"
  then have "call_with_result_obj NapariGetReader (napari_get_reader env) path (skip_impls st)
      = (Inr (Some (reader, i)), t)"
    by simp
  from call_with_result_obj_fresh [OF this]
  have fresh: "i < length (napari_get_reader env)" "i \<notin> set (skip_impls st)" by simp_all
  have "{..<length (napari_get_reader env)} - set (skip_impls st @ [i])
      \<subset> {..<length (napari_get_reader env)} - set (skip_impls st)"
    using fresh by auto
  then have less: "card ({..<length (napari_get_reader env)} - set (skip_impls st @ [i]))
      < card ({..<length (napari_get_reader env)} - set (skip_impls st))"
    by (intro psubset_card_mono) simp_all
  {
    show "((env, path, st\<lparr>cur_layer_data := layer_data, skip_impls := skip_impls st @ [i]\<rparr>),
           env, path, st)
        \<in> measure (\<lambda>(env, path, st). card ({..<length (napari_get_reader env)} - set (skip_impls st)))"
      using less by simp
  }
  fix exc
  show "((env, path, st\<lparr>errors := errors st @ [PluginCallError (Some i) exc],
                         skip_impls := skip_impls st @ [i]\<rparr>), env, path, st)
      \<in> measure (\<lambda>(env, path, st). card ({..<length (napari_get_reader env)} - set (skip_impls st)))"
    using less by simp
qed

text \<open>
  \<open>read_data_with_plugins\<close> after the npe2 attempt, in three parts: the branch of a
  forced plugin (\<open>if plugin:\<close>), the loop with what follows it, and the choice between
  them once the plugin to force is known.
\<close>

definition read_forced :: "env \<Rightarrow> path \<Rightarrow> string \<Rightarrow> (pyval \<times> implref option) res" where
  "read_forced env path plugin =
     (if plugin \<notin> set (plugins env)
      then (Inl (ValueError (NoRegisteredReader plugin (hookimpl_names (napari_get_reader env)))), [])
      else
        (case call_plugin NapariGetReader (napari_get_reader env) plugin path of
           (Inl e, t) \<Rightarrow> (Inl e, t)
         | (Inr None, t) \<Rightarrow> (Inl (ValueError (PluginDoesNotSupport plugin path)), t)
         | (Inr (Some reader), t) \<Rightarrow>
             (let hookimpl = get_plugin_implementation (napari_get_reader env) plugin in
              (case reader path of
                 Inl e \<Rightarrow> (Inl e, t @ [ReaderCall hookimpl path])
               | Inr layer_data \<Rightarrow>
                   (if is_null_layer_sentinel layer_data
                    then (Inr (PyList [], map_option HookImpl hookimpl),
                          t @ [ReaderCall hookimpl path])
                    else (Inr (if truthy layer_data then layer_data else PyNone,
                               map_option HookImpl hookimpl),
                          t @ [ReaderCall hookimpl path]))))))"

definition loop_start :: loop_state where
  "loop_start = \<lparr>cur_layer_data = PyNone, cur_hookimpl = None, errors = [], skip_impls = []\<rparr>"

definition read_unforced :: "env \<Rightarrow> path \<Rightarrow> (pyval \<times> implref option) res" where
  "read_unforced env path =
     (case read_loop env path loop_start of
        (Inl e, t) \<Rightarrow> (Inl e, t)
      | (Inr st, t) \<Rightarrow>
          (if \<not> truthy (cur_layer_data st)
           then
             (case path of
                PathSeq ps \<Rightarrow>
                  (case ps of
                     [] \<Rightarrow> (Inl IndexError, t)
                   | p # rest \<Rightarrow> (Inl (ValueError (NoPluginFoundStack p)), t))
              | PathStr s \<Rightarrow> (Inl (ValueError (NoPluginFoundSingle path)), t))
           else
             (Inr (if is_null_layer_sentinel (cur_layer_data st) then PyList []
                   else if truthy (cur_layer_data st) then cur_layer_data st else PyNone,
                   cur_hookimpl st),
              t @ (if errors st \<noteq> [] then [LogErrorSummary (length (errors st))] else []))))"

definition read_first_gen :: "env \<Rightarrow> path \<Rightarrow> string option \<Rightarrow> (pyval \<times> implref option) res" where
  "read_first_gen env path plugin =
     (case plugin of
        Some name \<Rightarrow> (if name \<noteq> [] then read_forced env path name else read_unforced env path)
      | None \<Rightarrow> read_unforced env path)"

definition read_data_with_plugins ::
    "env \<Rightarrow> path \<Rightarrow> string option \<Rightarrow> (pyval \<times> implref option) res" where
  "read_data_with_plugins env path plugin =
     (case read_with_npe2 env path plugin of
        (Inl e, t) \<Rightarrow> (Inl e, t)
      | (Inr (Some (ld, hookimpl)), t) \<Rightarrow>
          (Inr (if is_null_layer_sentinel ld then PyList [] else ld, Some hookimpl), t)
      | (Inr None, t) \<Rightarrow>
          (case (name_given plugin, abspath_or_url env path) of
             (False, PathStr s) \<Rightarrow>
               (let extension = snd (splitext env s) in
                prepend (t @ [GetReaderForExtension extension])
                  (read_first_gen env (PathStr s) (get_reader_for_extension env extension)))
           | (given, path') \<Rightarrow> prepend t (read_first_gen env path' plugin)))"

section \<open>Writing (napari/plugins/io.py)\<close>

text \<open>
  What the writers use of a layer (class \<open>Layer\<close> is not part of this file):
  \<open>as_layer_data_tuple()\<close>, \<open>_type_string\<close>, \<open>data\<close> and \<open>_get_state()\<close>.
\<close>

record layer =
  as_layer_data_tuple :: layer_data
  type_string :: string
  layer_data_attr :: pyval
  get_state :: pyval

definition exec_written :: "exec_result \<Rightarrow> string list" where
  "exec_written res =
     (case res of
        ResStr s \<Rightarrow> [s]
      | ResList l \<Rightarrow> (if l \<noteq> [] then l else [])
      | ResNone \<Rightarrow> [])"

definition write_layers_with_npe2 ::
    "env \<Rightarrow> path \<Rightarrow> layer list \<Rightarrow> string option \<Rightarrow> writer_contribution option \<Rightarrow> (string list) res" where
  "write_layers_with_npe2 env path layers plugin_name writer =
     (if \<not> npe2_importable env then (Inr [], [ImportNpe2])
      else
        (let layer_data = map as_layer_data_tuple layers in
         (case writer of
            None \<Rightarrow>
              (case npe2_write env path layer_data plugin_name of
                 Inl e \<Rightarrow> (Inl e, [ImportNpe2, Npe2Write path plugin_name])
               | Inr written \<Rightarrow> (Inr written, [ImportNpe2, Npe2Write path plugin_name]))
          | Some w \<Rightarrow>
              (let n = sum_list (layer_type_constraints_max w) in
               (case (if n \<le> 1
                      then (case layer_data of
                              [] \<Rightarrow> Inl IndexError
                            | (d, m, ty) # rest \<Rightarrow> Inr (ArgsOne path d m))
                      else Inr (ArgsMany path layer_data)) of
                  Inl e \<Rightarrow> (Inl e, [ImportNpe2])
                | Inr args \<Rightarrow>
                    (case writer_exec w args of
                       Inl e \<Rightarrow> (Inl e, [ImportNpe2, Npe2WriterExec])
                     | Inr res \<Rightarrow> (Inr (exec_written res), [ImportNpe2, Npe2WriterExec])))))))"











section \<open>Example environments\<close>

text \<open>
  A plugin manager without npe2 and with five reader plugins: one that declines every
  path, one whose reader raises, one whose reader returns an empty list, and two that
  read. The extension table sends \<open>.svg\<close> to the plugin \<open>svg\<close>.
\<close>

definition demo_splitext :: "string \<Rightarrow> string \<times> string" where
  "demo_splitext s =
     (let ext = takeWhile (\<lambda>c. c \<noteq> CHR ''.'') (rev s) in
      if length ext < length s
      then (take (length s - Suc (length ext)) s, CHR ''.'' # rev ext)
      else (s, []))"

definition demo_readers :: "(path, reader_function) hook_caller" where
  "demo_readers =
     [(''idle'', \<lambda>p. Inr None),
      (''broken'', \<lambda>p. Inr (Some (\<lambda>q. Inl (PluginError ''boom'')))),
      (''empty'', \<lambda>p. Inr (Some (\<lambda>q. Inr (PyList [])))),
      (''builtins'', \<lambda>p. Inr (Some (\<lambda>q. Inr (PyList [PyTuple [PyObj 0]])))),
      (''svg'', \<lambda>p. Inr (Some (\<lambda>q. Inr (PyList [PyTuple [PyNone]]))))]"

definition demo_writers :: "(path \<times> string list, writer_function) hook_caller" where
  "demo_writers =
     [(''idle'', \<lambda>a. Inr None),
      (''builtins'', \<lambda>a. Inr (Some (\<lambda>p lds. Inr (map (\<lambda>(d, m, ty). ty) lds))))]"

definition demo_layer_writers :: "(path \<times> pyval \<times> pyval, string) hook_caller" where
  "demo_layer_writers =
     [(''idle'', \<lambda>a. Inr None),
      (''builtins'', \<lambda>a. Inr (Some ''out.csv''))]"

definition demo_env :: env where
  "demo_env =
     \<lparr>npe2_importable = False,
      read_get_reader = (\<lambda>p n. Inl (ValueError (OtherMessage ''no compatible readers''))),
      npe2_write = (\<lambda>p lds n. Inr []),
      abspath_or_url = (\<lambda>p. p),
      splitext = demo_splitext,
      plugins = [''idle'', ''broken'', ''empty'', ''builtins'', ''svg''],
      get_reader_for_extension = (\<lambda>e. if e = ''.svg'' then Some ''svg'' else None),
      get_writer_for_extension = (\<lambda>e. if e = ''.csv'' then Some ''builtins'' else None),
      napari_get_reader = demo_readers,
      napari_get_writer = demo_writers,
      napari_write = (\<lambda>ty. demo_layer_writers)\<rparr>"

text \<open>The same with an npe2 that reads every path as an empty file and writes one file.\<close>

definition demo_env_npe2 :: env where
  "demo_env_npe2 =
     demo_env\<lparr>npe2_importable := True,
              read_get_reader := (\<lambda>p n. Inr (PyList [PyTuple [PyNone]], ''npe2-reader'')),
              npe2_write := (\<lambda>p lds n. Inr [''written.tif''])\<rparr>"


section \<open>Menu population (napari/_qt/menus/_util.py)\<close>
















section \<open>The points visual (napari/_vispy/layers/points.py)\<close>

text \<open>
  What \<open>_on_data_change\<close> reads of the layer, and the arguments of the one
  \<open>set_data\<close> call it makes. Arrays are lists of rows; the numbers are only copied.
  The \<open>self.reset()\<close> that follows the call belongs to the base class and is left out.
\<close>

record points_view =
  indices_view :: "nat list"
  ndisplay :: nat
  view_data :: "real list list"
  view_size :: "real list"
  view_edge_color :: "real list list"
  view_face_color :: "real list list"
  edge_width :: real
  symbol :: string

record set_data_args =
  sd_pos :: "real list list"
  sd_size :: "real list"
  sd_edge_width :: real
  sd_symbol :: string
  sd_edge_color :: "real list list"
  sd_face_color :: "real list list"
  sd_scaling :: bool

definition on_data_change :: "points_view \<Rightarrow> set_data_args" where
  "on_data_change lyr =
     (let (edge_color, face_color) =
            (if length (indices_view lyr) > 0
             then (view_edge_color lyr, view_face_color lyr)
             else ([[0, 0, 0, 1]], [[1, 1, 1, 1]]));
          (data, size) =
            (if length (indices_view lyr) = 0
             then ([replicate (ndisplay lyr) 0], [0])
             else (view_data lyr, view_size lyr))
      in \<lparr>sd_pos = map rev data,
          sd_size = size,
          sd_edge_width = edge_width lyr,
          sd_symbol = symbol lyr,
          sd_edge_color = edge_color,
          sd_face_color = face_color,
          sd_scaling = True\<rparr>)"

section \<open>What the properties speak of\<close>

text \<open>
  The events that belong to the first-generation plugin manager (its extension tables,
  its hook implementations, the readers and writers they hand out), and the warnings.
\<close>

fun is_first_gen :: "event \<Rightarrow> bool" where
  "is_first_gen (GetReaderForExtension x) = True"
| "is_first_gen (GetWriterForExtension x) = True"
| "is_first_gen (HookCall h i) = True"
| "is_first_gen (ReaderCall i p) = True"
| "is_first_gen (WriterCall i p) = True"
| "is_first_gen e = False"









text \<open>
  The plugin that \<open>read_data_with_plugins\<close> takes as forced once the extension table has
  been asked; that no reader handed out for a path returns truthy data; that every
  implementation of \<open>napari_get_reader\<close> returns and no reader raises an exception
  outside \<open>Exception\<close>; and that the loop passes on from implementation \<open>j\<close>: its hook
  returns, and the reader it hands out, if any, raises an \<open>Exception\<close> or returns falsy
  data.
\<close>

definition forced_plugin :: "env \<Rightarrow> path \<Rightarrow> string option \<Rightarrow> string option" where
  "forced_plugin env path plugin =
     (case (name_given plugin, abspath_or_url env path) of
        (False, PathStr s) \<Rightarrow> get_reader_for_extension env (snd (splitext env s))
      | (given, path') \<Rightarrow> plugin)"

definition no_reader_reads :: "env \<Rightarrow> path \<Rightarrow> bool" where
  "no_reader_reads env path =
     list_all
       (\<lambda>(n, f).
          case f path of
            Inl e \<Rightarrow> True
          | Inr None \<Rightarrow> True
          | Inr (Some reader) \<Rightarrow> (case reader path of Inl e \<Rightarrow> True | Inr d \<Rightarrow> \<not> truthy d))
       (napari_get_reader env)"

definition hooks_return :: "env \<Rightarrow> path \<Rightarrow> bool" where
  "hooks_return env path =
     list_all
       (\<lambda>(n, f).
          case f path of
            Inl e \<Rightarrow> False
          | Inr None \<Rightarrow> True
          | Inr (Some reader) \<Rightarrow> (case reader path of Inl e \<Rightarrow> is_Exception e | Inr d \<Rightarrow> True))
       (napari_get_reader env)"

definition passes_on :: "env \<Rightarrow> path \<Rightarrow> nat \<Rightarrow> bool" where
  "passes_on env path j =
     (case snd (napari_get_reader env ! j) path of
        Inl e \<Rightarrow> False
      | Inr None \<Rightarrow> True
      | Inr (Some reader) \<Rightarrow> (case reader path of Inl e \<Rightarrow> is_Exception e | Inr d \<Rightarrow> \<not> truthy d))"

text \<open>
  Further examples: a plugin manager whose only reader hook raises, one whose readers
  read nothing, one whose last reader hook raises after readers that read nothing, one
  whose last reader raises \<open>KeyboardInterrupt\<close>, and a points layer with two points in
  view.
\<close>

definition failing_hook_env :: env where
  "failing_hook_env = demo_env\<lparr>napari_get_reader := [(''failing'', \<lambda>p. Inl (PluginError ''boom''))]\<rparr>"

definition unreadable_env :: env where
  "unreadable_env = demo_env\<lparr>napari_get_reader := take 3 demo_readers\<rparr>"

definition late_failing_env :: env where
  "late_failing_env =
     demo_env\<lparr>napari_get_reader := take 3 demo_readers @ [(''failing'', \<lambda>p. Inl (PluginError ''boom''))]\<rparr>"


definition demo_points_view :: points_view where
  "demo_points_view =
     \<lparr>indices_view = [0, 1],
      ndisplay = 2,
      view_data = [[1, 3], [8, 4]],
      view_size = [1, 1],
      view_edge_color = [[0, 0, 0, 1], [1, 0, 0, 1]],
      view_face_color = [[1, 1, 1, 1], [0, 1, 0, 1]],
      edge_width = 1,
      symbol = ''o''\<rparr>"

section \<open>Properties of reading\<close>

lemma prepend_simps:
  "fst (prepend t m) = fst m" "snd (prepend t m) = t @ snd m"
  by (simp_all add: prepend_def)

lemma read_with_npe2_cases:
  "read_with_npe2 env path plugin = (r, t) \<Longrightarrow>
     (t = [ImportNpe2] \<or> t = [ImportNpe2, Npe2ReadGetReader path plugin])"
  by (auto simp: read_with_npe2_def split: if_splits sum.splits prod.splits)





text \<open>
  C1. \<open>read_data_with_plugins\<close> begins with the npe2 attempt of \<open>_read_with_npe2\<close>:
  the events of that attempt come first and none of them belongs to the first-generation
  plugin manager. An event of the first-generation plugin manager (an extension lookup,
  a call of a \<open>napari_get_reader\<close> implementation, a call of a reader) occurs only when
  the attempt returned \<open>None\<close>, which happens exactly when npe2 cannot be imported or
  \<open>read_get_reader\<close> raised \<open>ValueError\<close>. When the attempt returns layer data and a
  hook implementation, they are returned at once (the null-layer sentinel as the empty
  list) and nothing else happens.
\<close>

theorem npe2_read_attempted_first:
  "take (length (snd (read_with_npe2 env path plugin))) (snd (read_data_with_plugins env path plugin))
     = snd (read_with_npe2 env path plugin)
   \<and> hd (snd (read_data_with_plugins env path plugin)) = ImportNpe2
   \<and> list_all (\<lambda>e. \<not> is_first_gen e) (snd (read_with_npe2 env path plugin))
   \<and> ((\<exists>e \<in> set (snd (read_data_with_plugins env path plugin)). is_first_gen e)
        \<longrightarrow> fst (read_with_npe2 env path plugin) = Inr None)
   \<and> (fst (read_with_npe2 env path plugin) = Inr None
        \<longleftrightarrow> \<not> npe2_importable env \<or> (\<exists>m. read_get_reader env path plugin = Inl (ValueError m)))
   \<and> (\<forall>ld h. fst (read_with_npe2 env path plugin) = Inr (Some (ld, h))
        \<longrightarrow> read_data_with_plugins env path plugin
            = (Inr (if is_null_layer_sentinel ld then PyList [] else ld, Some h),
               snd (read_with_npe2 env path plugin)))"
proof -
  obtain r t where rt: "read_with_npe2 env path plugin = (r, t)"
    by (cases "read_with_npe2 env path plugin")
  from read_with_npe2_cases [OF rt]
  have t: "t = [ImportNpe2] \<or> t = [ImportNpe2, Npe2ReadGetReader path plugin]" .
  have 1: "take (length t) (snd (read_data_with_plugins env path plugin)) = t"
    using rt
    by (auto simp: read_data_with_plugins_def prepend_def Let_def
        split: sum.splits option.splits prod.splits path.splits bool.splits)
  have 2: "hd (snd (read_data_with_plugins env path plugin)) = ImportNpe2"
    using rt t
    by (auto simp: read_data_with_plugins_def prepend_def Let_def
        split: sum.splits option.splits prod.splits path.splits bool.splits)
  have 3: "list_all (\<lambda>e. \<not> is_first_gen e) t"
    using t by auto
  have 4: "(\<exists>e \<in> set (snd (read_data_with_plugins env path plugin)). is_first_gen e) \<longrightarrow> r = Inr None"
    using rt t
    by (auto simp: read_data_with_plugins_def split: sum.splits option.splits prod.splits)
  have 5: "r = Inr None
      \<longleftrightarrow> \<not> npe2_importable env \<or> (\<exists>m. read_get_reader env path plugin = Inl (ValueError m))"
    using rt
    by (auto simp: read_with_npe2_def split: if_splits sum.splits prod.splits
        elim: is_ValueError.elims)
  have 6: "\<forall>ld h. r = Inr (Some (ld, h)) \<longrightarrow> read_data_with_plugins env path plugin
      = (Inr (if is_null_layer_sentinel ld then PyList [] else ld, Some h), t)"
    using rt by (auto simp: read_data_with_plugins_def)
  from 1 2 3 4 5 6 show ?thesis by (simp add: rt)
qed

theorem npe2_read_attempted_first_witness:
  "fst (read_with_npe2 demo_env_npe2 (PathStr ''a.tif'') None)
     = Inr (Some (PyList [PyTuple [PyNone]], Npe2Impl ''npe2-reader''))
   \<and> read_data_with_plugins demo_env_npe2 (PathStr ''a.tif'') None
     = (Inr (PyList [], Some (Npe2Impl ''npe2-reader'')),
        [ImportNpe2, Npe2ReadGetReader (PathStr ''a.tif'') None])
   \<and> HookCall NapariGetReader 0 \<in> set (snd (read_data_with_plugins demo_env (PathStr ''a.tif'') None))
   \<and> is_first_gen (HookCall NapariGetReader 0)
   \<and> fst (read_with_npe2 demo_env (PathStr ''a.tif'') None) = Inr None"
proof -
  have n: "read_with_npe2 demo_env_npe2 (PathStr ''a.tif'') None
      = (Inr (Some (PyList [PyTuple [PyNone]], Npe2Impl ''npe2-reader'')),
         [ImportNpe2, Npe2ReadGetReader (PathStr ''a.tif'') None])"
    by (simp add: read_with_npe2_def demo_env_npe2_def demo_env_def)
  have s: "is_null_layer_sentinel (PyList [PyTuple [PyNone]])"
    by (simp add: is_null_layer_sentinel_def)
  from npe2_read_attempted_first [of demo_env_npe2 "PathStr ''a.tif''" None] n s
  have 1: "read_data_with_plugins demo_env_npe2 (PathStr ''a.tif'') None
      = (Inr (PyList [], Some (Npe2Impl ''npe2-reader'')),
         [ImportNpe2, Npe2ReadGetReader (PathStr ''a.tif'') None])"
    by simp
  have d: "HookCall NapariGetReader 0 \<in> set (snd (read_data_with_plugins demo_env (PathStr ''a.tif'') None))"
    by code_simp
  have f: "is_first_gen (HookCall NapariGetReader 0)"
    by simp
  from npe2_read_attempted_first [of demo_env "PathStr ''a.tif''" None] d f
  have 2: "fst (read_with_npe2 demo_env (PathStr ''a.tif'') None) = Inr None"
    by blast
  from n 1 d f 2 show ?thesis by simp
qed



section \<open>Properties of writing\<close>






lemma write_layers_with_npe2_hd:
  "write_layers_with_npe2 env path layers plugin_name writer = (r, t) \<Longrightarrow> t \<noteq> [] \<and> hd t = ImportNpe2"
  by (auto simp: write_layers_with_npe2_def Let_def
      split: if_splits option.splits sum.splits list.splits prod.splits)















section \<open>Properties of the points visual\<close>

text \<open>
  C8. \<open>VispyPointsLayer._on_data_change\<close>: when \<open>_indices_view\<close> is empty the visual
  gets one all-zero coordinate of dimension \<open>_ndisplay\<close>, size \<open>[0]\<close>, edge colour
  \<open>[[0, 0, 0, 1]]\<close> and face colour \<open>[[1, 1, 1, 1]]\<close>; otherwise it gets \<open>_view_data\<close>
  with each row reversed, \<open>_view_size\<close>, \<open>_view_edge_color\<close> and \<open>_view_face_color\<close>.
  In both cases the edge width and symbol are the layer's and scaling is on.
\<close>

theorem on_data_change_set_data:
  "(indices_view lyr = [] \<longrightarrow>
      on_data_change lyr =
        \<lparr>sd_pos = [replicate (ndisplay lyr) 0],
         sd_size = [0],
         sd_edge_width = edge_width lyr,
         sd_symbol = symbol lyr,
         sd_edge_color = [[0, 0, 0, 1]],
         sd_face_color = [[1, 1, 1, 1]],
         sd_scaling = True\<rparr>)
   \<and> (indices_view lyr \<noteq> [] \<longrightarrow>
      on_data_change lyr =
        \<lparr>sd_pos = map rev (view_data lyr),
         sd_size = view_size lyr,
         sd_edge_width = edge_width lyr,
         sd_symbol = symbol lyr,
         sd_edge_color = view_edge_color lyr,
         sd_face_color = view_face_color lyr,
         sd_scaling = True\<rparr>)"
  by (simp add: on_data_change_def)

theorem on_data_change_set_data_witness:
  "indices_view (demo_points_view\<lparr>indices_view := []\<rparr>) = []
   \<and> on_data_change (demo_points_view\<lparr>indices_view := []\<rparr>) =
        \<lparr>sd_pos = [[0, 0]], sd_size = [0], sd_edge_width = 1, sd_symbol = ''o'',
         sd_edge_color = [[0, 0, 0, 1]], sd_face_color = [[1, 1, 1, 1]], sd_scaling = True\<rparr>
   \<and> indices_view demo_points_view \<noteq> []
   \<and> on_data_change demo_points_view =
        \<lparr>sd_pos = [[3, 1], [4, 8]], sd_size = [1, 1], sd_edge_width = 1, sd_symbol = ''o'',
         sd_edge_color = [[0, 0, 0, 1], [1, 0, 0, 1]],
         sd_face_color = [[1, 1, 1, 1], [0, 1, 0, 1]], sd_scaling = True\<rparr>"
proof -
  have e: "indices_view (demo_points_view\<lparr>indices_view := []\<rparr>) = []"
    by simp
  have n: "indices_view demo_points_view \<noteq> []"
    by (simp add: demo_points_view_def)
  from on_data_change_set_data [of "demo_points_view\<lparr>indices_view := []\<rparr>"] e
  have 1: "on_data_change (demo_points_view\<lparr>indices_view := []\<rparr>) =
        \<lparr>sd_pos = [[0, 0]], sd_size = [0], sd_edge_width = 1, sd_symbol = ''o'',
         sd_edge_color = [[0, 0, 0, 1]], sd_face_color = [[1, 1, 1, 1]], sd_scaling = True\<rparr>"
    by (simp add: demo_points_view_def numeral_2_eq_2)
  from on_data_change_set_data [of demo_points_view] n
  have 2: "on_data_change demo_points_view =
        \<lparr>sd_pos = [[3, 1], [4, 8]], sd_size = [1, 1], sd_edge_width = 1, sd_symbol = ''o'',
         sd_edge_color = [[0, 0, 0, 1], [1, 0, 0, 1]],
         sd_face_color = [[1, 1, 1, 1], [0, 1, 0, 1]], sd_scaling = True\<rparr>"
    by (simp add: demo_points_view_def)
  from e 1 n 2 show ?thesis by simp
qed

section \<open>Properties of the extension lookup\<close>






section \<open>Properties of menu population\<close>





section \<open>Properties of the reader loop\<close>

lemma multicall_result:
  "multicall h xs a = (Inr (Some (r, i)), t) \<Longrightarrow>
     \<exists>ys n f zs. xs = ys @ (i, n, f) # zs \<and> f a = Inr (Some r)
       \<and> (\<forall>(j, m, g) \<in> set ys. g a = Inr None)"
proof (induction xs arbitrary: t)
  case Nil
  then show ?case by simp
next
  case (Cons x xs)
  obtain j n f where x: "x = (j, n, f)" by (cases x)
  show ?case
  proof (cases "f a")
    case (Inl e)
    with Cons.prems x show ?thesis by simp
  next
    case (Inr ro)
    show ?thesis
    proof (cases ro)
      case None
      with Cons.prems x Inr have "multicall h xs a = (Inr (Some (r, i)), snd (multicall h xs a))"
        by (simp add: prepend_def prod_eq_iff)
      from Cons.IH [OF this] obtain ys n' f' zs where
        "xs = ys @ (i, n', f') # zs \<and> f' a = Inr (Some r) \<and> (\<forall>(j, m, g) \<in> set ys. g a = Inr None)"
        by (elim exE)
      then have "xs = ys @ (i, n', f') # zs" "f' a = Inr (Some r)"
        "\<forall>(j, m, g) \<in> set ys. g a = Inr None"
        by simp_all
      with x Inr None have "x # xs = (x # ys) @ (i, n', f') # zs \<and> f' a = Inr (Some r)
          \<and> (\<forall>(j, m, g) \<in> set (x # ys). g a = Inr None)"
        by simp
      then show ?thesis
        by (intro exI [where x = "x # ys"] exI [where x = n'] exI [where x = f'] exI [where x = zs])
    next
      case (Some r')
      with Cons.prems x Inr have "x # xs = [] @ (i, n, f) # xs \<and> f a = Inr (Some r)
          \<and> (\<forall>(j, m, g) \<in> set []. g a = Inr None)"
        by simp
      then show ?thesis
        by (intro exI [where x = "[]"] exI [where x = n] exI [where x = f] exI [where x = xs])
    qed
  qed
qed

lemma multicall_none:
  "multicall h xs a = (Inr None, t) \<Longrightarrow> \<forall>(j, m, g) \<in> set xs. g a = Inr None"
proof (induction xs arbitrary: t)
  case Nil
  then show ?case by simp
next
  case (Cons x xs)
  obtain j n f where x: "x = (j, n, f)" by (cases x)
  from Cons.prems x have f: "f a = Inr None"
    by (auto split: sum.splits option.splits)
  with Cons.prems x have "multicall h xs a = (Inr None, snd (multicall h xs a))"
    by (simp add: prepend_def prod_eq_iff)
  from Cons.IH [OF this] f x show ?case by simp
qed

lemma multicall_no_raise:
  "\<forall>(j, m, g) \<in> set xs. \<forall>e. g a \<noteq> Inl e \<Longrightarrow> \<exists>r. fst (multicall h xs a) = Inr r"
proof (induction xs)
  case Nil
  then show ?case by simp
next
  case (Cons x xs)
  obtain j n f where x: "x = (j, n, f)" by (cases x)
  from Cons.prems x have nf: "\<forall>e. f a \<noteq> Inl e"
    by simp
  from Cons.prems have "\<forall>(j, m, g) \<in> set xs. \<forall>e. g a \<noteq> Inl e"
    by simp
  from Cons.IH [OF this] obtain r where r: "fst (multicall h xs a) = Inr r" ..
  show ?case
  proof (cases "f a")
    case (Inl e)
    with nf show ?thesis by simp
  next
    case (Inr ro)
    with x r show ?thesis
      by (cases ro) (simp_all add: prepend_simps)
  qed
qed

lemma sorted_filter_enumerate:
  "sorted_wrt (<) (map fst (filter (\<lambda>(i, imp). i \<notin> set skip) (enumerate 0 hc)))"
proof -
  have e: "(\<lambda>(i, imp). i \<notin> set skip) = ((\<lambda>i. i \<notin> set skip) \<circ> fst)"
    by (simp add: fun_eq_iff)
  show ?thesis
    unfolding e filter_map [symmetric]
    by (simp add: map_fst_enumerate sorted_wrt_filter)
qed

lemma filter_enumerate_split:
  assumes "filter (\<lambda>(i, imp). i \<notin> set skip) (enumerate 0 hc) = ys @ (i, n, f) # zs"
  shows "i < length hc \<and> i \<notin> set skip \<and> hc ! i = (n, f)
    \<and> (\<forall>j < i. j \<in> set skip \<or> (j, hc ! j) \<in> set ys)"
proof -
  let ?xs = "filter (\<lambda>(i, imp). i \<notin> set skip) (enumerate 0 hc)"
  have mem: "(i, n, f) \<in> set ?xs"
    by (simp add: assms)
  then have i: "i < length hc" "i \<notin> set skip" "hc ! i = (n, f)"
    by (auto simp: in_set_enumerate_eq)
  have "sorted_wrt (<) (map fst (ys @ (i, n, f) # zs))"
    using sorted_filter_enumerate [of skip hc] by (simp only: assms)
  then have after: "\<forall>z \<in> set zs. i < fst z"
    by (simp add: sorted_wrt_append)
  have "\<forall>j < i. j \<in> set skip \<or> (j, hc ! j) \<in> set ys"
  proof (intro allI impI)
    fix j
    assume ji: "j < i"
    show "j \<in> set skip \<or> (j, hc ! j) \<in> set ys"
    proof (cases "j \<in> set skip")
      case True
      then show ?thesis by simp
    next
      case False
      with ji i have "(j, hc ! j) \<in> set ?xs"
        by (simp add: in_set_enumerate_eq)
      then have "(j, hc ! j) \<in> set (ys @ (i, n, f) # zs)"
        by (simp only: assms)
      then have "(j, hc ! j) \<in> set ys \<or> j = i \<or> (j, hc ! j) \<in> set zs"
        by auto
      moreover have "(j, hc ! j) \<notin> set zs"
      proof
        assume "(j, hc ! j) \<in> set zs"
        with after have "i < fst (j, hc ! j)" by blast
        with ji show False by simp
      qed
      ultimately show ?thesis using ji by simp
    qed
  qed
  with i show ?thesis by simp
qed

lemma call_with_result_obj_result:
  assumes "call_with_result_obj h hc a skip = (Inr (Some (r, i)), t)"
  shows "i < length hc \<and> i \<notin> set skip \<and> snd (hc ! i) a = Inr (Some r)
    \<and> (\<forall>j < i. j \<in> set skip \<or> snd (hc ! j) a = Inr None)"
proof -
  from multicall_result [OF assms [unfolded call_with_result_obj_def]]
  obtain ys n f zs where
    "filter (\<lambda>(i, imp). i \<notin> set skip) (enumerate 0 hc) = ys @ (i, n, f) # zs
      \<and> f a = Inr (Some r) \<and> (\<forall>(j, m, g) \<in> set ys. g a = Inr None)"
    by (elim exE)
  then have split: "filter (\<lambda>(i, imp). i \<notin> set skip) (enumerate 0 hc) = ys @ (i, n, f) # zs"
    and f: "f a = Inr (Some r)" and ys: "\<forall>y \<in> set ys. snd (snd y) a = Inr None"
    by (simp_all add: case_prod_unfold)
  from filter_enumerate_split [OF split]
  have i: "i < length hc" "i \<notin> set skip" "hc ! i = (n, f)"
    and before: "\<forall>j < i. j \<in> set skip \<or> (j, hc ! j) \<in> set ys"
    by simp_all
  have "\<forall>j < i. j \<in> set skip \<or> snd (hc ! j) a = Inr None"
  proof (intro allI impI)
    fix j
    assume "j < i"
    with before have "j \<in> set skip \<or> (j, hc ! j) \<in> set ys" by simp
    then show "j \<in> set skip \<or> snd (hc ! j) a = Inr None"
    proof
      assume "j \<in> set skip"
      then show ?thesis by simp
    next
      assume "(j, hc ! j) \<in> set ys"
      with ys have "snd (snd (j, hc ! j)) a = Inr None" by (rule bspec)
      then show ?thesis by simp
    qed
  qed
  with i f show ?thesis by simp
qed

lemma call_with_result_obj_none:
  assumes "call_with_result_obj h hc a skip = (Inr None, t)"
  shows "\<forall>j < length hc. j \<in> set skip \<or> snd (hc ! j) a = Inr None"
proof (intro allI impI)
  fix j
  assume j: "j < length hc"
  from multicall_none [OF assms [unfolded call_with_result_obj_def]]
  have all: "\<forall>y \<in> set (filter (\<lambda>(i, imp). i \<notin> set skip) (enumerate 0 hc)). snd (snd y) a = Inr None"
    by (simp add: case_prod_unfold)
  show "j \<in> set skip \<or> snd (hc ! j) a = Inr None"
  proof (cases "j \<in> set skip")
    case True
    then show ?thesis by simp
  next
    case False
    with j have "(j, hc ! j) \<in> set (filter (\<lambda>(i, imp). i \<notin> set skip) (enumerate 0 hc))"
      by (simp add: in_set_enumerate_eq)
    with all have "snd (snd (j, hc ! j)) a = Inr None" by (rule bspec)
    then show ?thesis by simp
  qed
qed

lemma call_with_result_obj_no_raise:
  assumes "\<forall>j < length hc. \<forall>e. snd (hc ! j) a \<noteq> Inl e"
  shows "\<exists>r. fst (call_with_result_obj h hc a skip) = Inr r"
proof -
  have "\<forall>y \<in> set (filter (\<lambda>(i, imp). i \<notin> set skip) (enumerate 0 hc)). \<forall>e. snd (snd y) a \<noteq> Inl e"
    using assms by (auto simp: in_set_enumerate_eq)
  then have "\<forall>(j, m, g) \<in> set (filter (\<lambda>(i, imp). i \<notin> set skip) (enumerate 0 hc)). \<forall>e. g a \<noteq> Inl e"
    by (simp add: case_prod_unfold)
  from multicall_no_raise [OF this] show ?thesis
    by (simp add: call_with_result_obj_def)
qed

lemma multicall_raises:
  "multicall h xs a = (Inl e, t) \<Longrightarrow>
     \<exists>ys i n f zs e'. xs = ys @ (i, n, f) # zs \<and> f a = Inl e' \<and> e = wrap_hook_error i e'
       \<and> (\<forall>y \<in> set ys. snd (snd y) a = Inr None) \<and> t \<noteq> [] \<and> last t = HookCall h i"
proof (induction xs arbitrary: t)
  case Nil
  then show ?case by simp
next
  case (Cons x xs)
  obtain j n f where x: "x = (j, n, f)" by (cases x)
  show ?case
  proof (cases "f a")
    case (Inl e')
    with Cons.prems x have "x # xs = [] @ (j, n, f) # xs \<and> f a = Inl e' \<and> e = wrap_hook_error j e'
        \<and> (\<forall>y \<in> set []. snd (snd y) a = Inr None) \<and> t \<noteq> [] \<and> last t = HookCall h j"
      by auto
    then show ?thesis
      by (intro exI [where x = "[]"] exI [where x = j] exI [where x = n] exI [where x = f]
          exI [where x = xs] exI [where x = e'])
  next
    case (Inr ro)
    show ?thesis
    proof (cases ro)
      case None
      with Cons.prems x Inr have m: "multicall h xs a = (Inl e, snd (multicall h xs a))"
        and t: "t = HookCall h j # snd (multicall h xs a)"
        by (simp_all add: prepend_def prod_eq_iff)
      from Cons.IH [OF m] obtain ys i n' f' zs e' where
        "xs = ys @ (i, n', f') # zs \<and> f' a = Inl e' \<and> e = wrap_hook_error i e'
          \<and> (\<forall>y \<in> set ys. snd (snd y) a = Inr None) \<and> snd (multicall h xs a) \<noteq> []
          \<and> last (snd (multicall h xs a)) = HookCall h i"
        by (elim exE)
      then have xs: "xs = ys @ (i, n', f') # zs" and f': "f' a = Inl e'" "e = wrap_hook_error i e'"
        and ys: "\<forall>y \<in> set ys. snd (snd y) a = Inr None"
        and ne: "snd (multicall h xs a) \<noteq> []" and l: "last (snd (multicall h xs a)) = HookCall h i"
        by blast+
      from t ne l have lt: "t \<noteq> []" "last t = HookCall h i"
        by simp_all
      from x Inr None ys have ys': "\<forall>y \<in> set (x # ys). snd (snd y) a = Inr None"
        by simp
      from xs have "x # xs = (x # ys) @ (i, n', f') # zs"
        by simp
      with f' ys' lt have "x # xs = (x # ys) @ (i, n', f') # zs \<and> f' a = Inl e'
          \<and> e = wrap_hook_error i e'
          \<and> (\<forall>y \<in> set (x # ys). snd (snd y) a = Inr None) \<and> t \<noteq> [] \<and> last t = HookCall h i"
        by (intro conjI)
      then show ?thesis
        by (intro exI [where x = "x # ys"] exI [where x = i] exI [where x = n'] exI [where x = f']
            exI [where x = zs] exI [where x = e'])
    next
      case (Some r')
      with Cons.prems x Inr show ?thesis by simp
    qed
  qed
qed

lemma call_with_result_obj_raises:
  assumes "call_with_result_obj h hc a skip = (Inl e, t)"
  shows "\<exists>i e'. i < length hc \<and> i \<notin> set skip \<and> snd (hc ! i) a = Inl e' \<and> e = wrap_hook_error i e'
    \<and> (\<forall>j < i. j \<in> set skip \<or> snd (hc ! j) a = Inr None) \<and> t \<noteq> [] \<and> last t = HookCall h i"
proof -
  from multicall_raises [OF assms [unfolded call_with_result_obj_def]]
  obtain ys i n f zs e' where
    "filter (\<lambda>(i, imp). i \<notin> set skip) (enumerate 0 hc) = ys @ (i, n, f) # zs
      \<and> f a = Inl e' \<and> e = wrap_hook_error i e'
      \<and> (\<forall>y \<in> set ys. snd (snd y) a = Inr None) \<and> t \<noteq> [] \<and> last t = HookCall h i"
    by (elim exE)
  then have split: "filter (\<lambda>(i, imp). i \<notin> set skip) (enumerate 0 hc) = ys @ (i, n, f) # zs"
    and f: "f a = Inl e'" "e = wrap_hook_error i e'" "t \<noteq> []" "last t = HookCall h i"
    and ys: "\<forall>y \<in> set ys. snd (snd y) a = Inr None"
    by simp_all
  from filter_enumerate_split [OF split]
  have i: "i < length hc" "i \<notin> set skip" "hc ! i = (n, f)"
    and before: "\<forall>j < i. j \<in> set skip \<or> (j, hc ! j) \<in> set ys"
    by simp_all
  have "\<forall>j < i. j \<in> set skip \<or> snd (hc ! j) a = Inr None"
  proof (intro allI impI)
    fix j
    assume "j < i"
    with before have "j \<in> set skip \<or> (j, hc ! j) \<in> set ys" by simp
    then show "j \<in> set skip \<or> snd (hc ! j) a = Inr None"
    proof
      assume "j \<in> set skip"
      then show ?thesis by simp
    next
      assume "(j, hc ! j) \<in> set ys"
      with ys have "snd (snd (j, hc ! j)) a = Inr None" by (rule bspec)
      then show ?thesis by simp
    qed
  qed
  with i f have "i < length hc \<and> i \<notin> set skip \<and> snd (hc ! i) a = Inl e' \<and> e = wrap_hook_error i e'
    \<and> (\<forall>j < i. j \<in> set skip \<or> snd (hc ! j) a = Inr None) \<and> t \<noteq> [] \<and> last t = HookCall h i"
    by simp
  then show ?thesis
    by (intro exI [where x = i] exI [where x = e'])
qed

lemma read_loop_induct [consumes 0, case_names step]:
  assumes step: "\<And>st.
    \<lbrakk>\<And>reader i t d.
        \<lbrakk>call_with_result_obj NapariGetReader (napari_get_reader (env :: env)) path (skip_impls st)
           = (Inr (Some (reader, i)), t);
         reader path = Inr d; \<not> truthy d\<rbrakk>
        \<Longrightarrow> P (st\<lparr>cur_layer_data := d, skip_impls := skip_impls st @ [i]\<rparr>);
     \<And>reader i t exc.
        \<lbrakk>call_with_result_obj NapariGetReader (napari_get_reader env) path (skip_impls st)
           = (Inr (Some (reader, i)), t);
         reader path = Inl exc; is_Exception exc\<rbrakk>
        \<Longrightarrow> P (st\<lparr>errors := errors st @ [PluginCallError (Some i) exc],
                  skip_impls := skip_impls st @ [i]\<rparr>)\<rbrakk>
    \<Longrightarrow> P st"
  shows "P (st :: loop_state)"
proof -
  have "env' = env \<longrightarrow> path' = path \<longrightarrow> P st" for env' :: env and path'
  proof (induction env' path' st rule: read_loop.induct)
    case (1 env' path' st)
    show ?case
    proof (intro impI)
      assume e: "env' = env" and p: "path' = path"
      show "P st"
      proof (rule step)
        fix reader i t d
        assume "call_with_result_obj NapariGetReader (napari_get_reader env) path (skip_impls st)
           = (Inr (Some (reader, i)), t)" and "reader path = Inr d" and "\<not> truthy d"
        with 1(2) [of "Inr (Some (reader, i))" t "Some (reader, i)" "(reader, i)" reader i d] e p
        show "P (st\<lparr>cur_layer_data := d, skip_impls := skip_impls st @ [i]\<rparr>)"
          by simp
      next
        fix reader i t exc
        assume "call_with_result_obj NapariGetReader (napari_get_reader env) path (skip_impls st)
           = (Inr (Some (reader, i)), t)" and "reader path = Inl exc" and "is_Exception exc"
        with 1(1) [of "Inr (Some (reader, i))" t "Some (reader, i)" "(reader, i)" reader i exc] e p
        show "P (st\<lparr>errors := errors st @ [PluginCallError (Some i) exc],
                  skip_impls := skip_impls st @ [i]\<rparr>)"
          by simp
      qed
    qed
  qed
  then show ?thesis by simp
qed

declare read_loop.simps [simp del]

lemma read_loop_falsy:
  assumes nt: "\<forall>i < length (napari_get_reader env). \<forall>r d.
      snd (napari_get_reader env ! i) path = Inr (Some r) \<longrightarrow> r path = Inr d \<longrightarrow> \<not> truthy d"
  shows "\<not> truthy (cur_layer_data st) \<Longrightarrow> fst (read_loop env path st) = Inr st'
    \<Longrightarrow> \<not> truthy (cur_layer_data st')"
proof (induction st rule: read_loop_induct [of env path])
  case (step st)
  obtain x t where c: "call_with_result_obj NapariGetReader (napari_get_reader env) path (skip_impls st) = (x, t)"
    by (cases "call_with_result_obj NapariGetReader (napari_get_reader env) path (skip_impls st)")
  show ?case
  proof (cases x)
    case (Inl e)
    with step.prems c show ?thesis
      by (simp add: read_loop.simps [of env path st])
  next
    case (Inr res)
    show ?thesis
    proof (cases res)
      case None
      with step.prems c Inr show ?thesis
        by (simp add: read_loop.simps [of env path st])
    next
      case (Some ri)
      obtain reader i where ri: "ri = (reader, i)" by (cases ri)
      note c' = c [unfolded Inr Some ri]
      from call_with_result_obj_result [OF c']
      have i: "i < length (napari_get_reader env)"
        "snd (napari_get_reader env ! i) path = Inr (Some reader)"
        by simp_all
      show ?thesis
      proof (cases "reader path")
        case (Inl exc)
        show ?thesis
        proof (cases "is_Exception exc")
          case True
          from step.IH(2) [OF c' Inl True] step.prems c' Inl True show ?thesis
            by (simp add: read_loop.simps [of env path st] prepend_simps)
        next
          case False
          with step.prems c' Inl show ?thesis
            by (simp add: read_loop.simps [of env path st])
        qed
      next
        case r: (Inr d)
        with nt i have nd: "\<not> truthy d" by blast
        from step.IH(1) [OF c' r nd] step.prems c' r nd show ?thesis
          by (simp add: read_loop.simps [of env path st] prepend_simps)
      qed
    qed
  qed
qed

lemma read_loop_cases [consumes 0, case_names hook_raises out_of_readers truthy falsy failed interrupted]:
  fixes env :: env and st :: loop_state
  obtains
    (hook_raises) e t where
      "call_with_result_obj NapariGetReader (napari_get_reader env) path (skip_impls st) = (Inl e, t)"
      "read_loop env path st = (Inl e, t)"
  | (out_of_readers) t where
      "call_with_result_obj NapariGetReader (napari_get_reader env) path (skip_impls st) = (Inr None, t)"
      "read_loop env path st = (Inr st, t)"
  | (truthy) reader i t d where
      "call_with_result_obj NapariGetReader (napari_get_reader env) path (skip_impls st)
         = (Inr (Some (reader, i)), t)"
      "reader path = Inr d" "truthy d"
      "read_loop env path st
         = (Inr (st\<lparr>cur_layer_data := d, cur_hookimpl := Some (HookImpl i)\<rparr>),
            t @ [ReaderCall (Some i) path])"
  | (falsy) reader i t d where
      "call_with_result_obj NapariGetReader (napari_get_reader env) path (skip_impls st)
         = (Inr (Some (reader, i)), t)"
      "reader path = Inr d" "\<not> truthy d"
      "read_loop env path st
         = prepend (t @ [ReaderCall (Some i) path])
             (read_loop env path (st\<lparr>cur_layer_data := d, skip_impls := skip_impls st @ [i]\<rparr>))"
  | (failed) reader i t exc where
      "call_with_result_obj NapariGetReader (napari_get_reader env) path (skip_impls st)
         = (Inr (Some (reader, i)), t)"
      "reader path = Inl exc" "is_Exception exc"
      "read_loop env path st
         = prepend (t @ [ReaderCall (Some i) path, LogPluginError i])
             (read_loop env path
                (st\<lparr>errors := errors st @ [PluginCallError (Some i) exc],
                    skip_impls := skip_impls st @ [i]\<rparr>))"
  | (interrupted) reader i t exc where
      "call_with_result_obj NapariGetReader (napari_get_reader env) path (skip_impls st)
         = (Inr (Some (reader, i)), t)"
      "reader path = Inl exc" "\<not> is_Exception exc"
      "read_loop env path st = (Inl exc, t @ [ReaderCall (Some i) path])"
proof -
  obtain x t where c: "call_with_result_obj NapariGetReader (napari_get_reader env) path (skip_impls st) = (x, t)"
    by (cases "call_with_result_obj NapariGetReader (napari_get_reader env) path (skip_impls st)")
  show ?thesis
  proof (cases x)
    case (Inl e)
    with c show ?thesis
      by (intro hook_raises [of e t]) (simp_all add: read_loop.simps [of env path st])
  next
    case (Inr res)
    show ?thesis
    proof (cases res)
      case None
      with c Inr show ?thesis
        by (intro out_of_readers [of t]) (simp_all add: read_loop.simps [of env path st])
    next
      case (Some ri)
      obtain reader i where ri: "ri = (reader, i)" by (cases ri)
      note c' = c [unfolded Inr Some ri]
      show ?thesis
      proof (cases "reader path")
        case (Inl exc)
        show ?thesis
        proof (cases "is_Exception exc")
          case True
          with c' Inl show ?thesis
            by (intro failed [of reader i t exc]) (simp_all add: read_loop.simps [of env path st])
        next
          case False
          with c' Inl show ?thesis
            by (intro interrupted [of reader i t exc]) (simp_all add: read_loop.simps [of env path st])
        qed
      next
        case r: (Inr d)
        show ?thesis
        proof (cases "truthy d")
          case True
          with c' r show ?thesis
            by (intro truthy [of reader i t d]) (simp_all add: read_loop.simps [of env path st])
        next
          case False
          with c' r show ?thesis
            by (intro falsy [of reader i t d]) (simp_all add: read_loop.simps [of env path st])
        qed
      qed
    qed
  qed
qed

lemma read_loop_returns:
  assumes hk: "\<forall>j < length (napari_get_reader env). \<forall>e. snd (napari_get_reader env ! j) path \<noteq> Inl e"
    and rd: "\<forall>j < length (napari_get_reader env). \<forall>r e.
      snd (napari_get_reader env ! j) path = Inr (Some r) \<longrightarrow> r path = Inl e \<longrightarrow> is_Exception e"
  shows "\<exists>st'. fst (read_loop env path st) = Inr st'"
proof (induction st rule: read_loop_induct [of env path])
  case (step st)
  show ?case
  proof (cases rule: read_loop_cases [of env path st])
    case (hook_raises e t)
    from call_with_result_obj_no_raise [OF hk, of NapariGetReader "skip_impls st"] hook_raises(1)
    show ?thesis by simp
  next
    case (out_of_readers t)
    then show ?thesis by simp
  next
    case (truthy reader i t d)
    then show ?thesis by simp
  next
    case (falsy reader i t d)
    from step.IH(1) [OF falsy(1,2,3)] falsy(4) show ?thesis
      by (simp add: prepend_simps)
  next
    case (failed reader i t exc)
    from step.IH(2) [OF failed(1,2,3)] failed(4) show ?thesis
      by (simp add: prepend_simps)
  next
    case (interrupted reader i t exc)
    from call_with_result_obj_result [OF interrupted(1)]
    have "i < length (napari_get_reader env)" "snd (napari_get_reader env ! i) path = Inr (Some reader)"
      by simp_all
    with rd interrupted(2) have "is_Exception exc" by blast
    with interrupted(3) show ?thesis by simp
  qed
qed

lemma no_reader_reads_nth:
  assumes "no_reader_reads env path"
  shows "\<forall>i < length (napari_get_reader env). \<forall>r d.
      snd (napari_get_reader env ! i) path = Inr (Some r) \<longrightarrow> r path = Inr d \<longrightarrow> \<not> truthy d"
proof (intro allI impI)
  fix i r d
  assume i: "i < length (napari_get_reader env)"
    and r: "snd (napari_get_reader env ! i) path = Inr (Some r)" and d: "r path = Inr d"
  obtain n f where nf: "napari_get_reader env ! i = (n, f)"
    by (cases "napari_get_reader env ! i")
  from assms i have "(\<lambda>(n, f).
          case f path of
            Inl e \<Rightarrow> True
          | Inr None \<Rightarrow> True
          | Inr (Some reader) \<Rightarrow> (case reader path of Inl e \<Rightarrow> True | Inr d \<Rightarrow> \<not> truthy d))
       (napari_get_reader env ! i)"
    by (simp add: no_reader_reads_def list_all_length)
  with nf r d show "\<not> truthy d" by simp
qed

lemma hooks_return_nth:
  assumes "hooks_return env path"
  shows "\<forall>j < length (napari_get_reader env). \<forall>e. snd (napari_get_reader env ! j) path \<noteq> Inl e"
    and "\<forall>j < length (napari_get_reader env). \<forall>r e.
      snd (napari_get_reader env ! j) path = Inr (Some r) \<longrightarrow> r path = Inl e \<longrightarrow> is_Exception e"
proof -
  have a: "(\<lambda>(n, f).
          case f path of
            Inl e \<Rightarrow> False
          | Inr None \<Rightarrow> True
          | Inr (Some reader) \<Rightarrow> (case reader path of Inl e \<Rightarrow> is_Exception e | Inr d \<Rightarrow> True))
       (napari_get_reader env ! j)" if "j < length (napari_get_reader env)" for j
    using assms that by (simp add: hooks_return_def list_all_length)
  show "\<forall>j < length (napari_get_reader env). \<forall>e. snd (napari_get_reader env ! j) path \<noteq> Inl e"
  proof (intro allI impI)
    fix j e
    assume "j < length (napari_get_reader env)"
    from a [OF this] show "snd (napari_get_reader env ! j) path \<noteq> Inl e"
      by (cases "napari_get_reader env ! j") (auto split: sum.splits)
  qed
  show "\<forall>j < length (napari_get_reader env). \<forall>r e.
      snd (napari_get_reader env ! j) path = Inr (Some r) \<longrightarrow> r path = Inl e \<longrightarrow> is_Exception e"
  proof (intro allI impI)
    fix j r e
    assume "j < length (napari_get_reader env)"
      and "snd (napari_get_reader env ! j) path = Inr (Some r)" and "r path = Inl e"
    with a [of j] show "is_Exception e"
      by (cases "napari_get_reader env ! j") simp
  qed
qed

lemma read_data_unforced:
  assumes "fst (read_with_npe2 env path plugin) = Inr None"
    and "\<not> name_given (forced_plugin env path plugin)"
  shows "fst (read_data_with_plugins env path plugin) = fst (read_unforced env (abspath_or_url env path))"
proof -
  obtain t where n: "read_with_npe2 env path plugin = (Inr None, t)"
    using assms(1) by (cases "read_with_npe2 env path plugin") simp
  have fg: "\<not> name_given p \<Longrightarrow> read_first_gen env q p = read_unforced env q" for p q
    by (cases p) (simp_all add: read_first_gen_def)
  show ?thesis
  proof (cases "name_given plugin")
    case True
    with assms(2) show ?thesis
      by (simp add: forced_plugin_def)
  next
    case False
    show ?thesis
    proof (cases "abspath_or_url env path")
      case (PathStr s)
      with False assms(2) have "\<not> name_given (get_reader_for_extension env (snd (splitext env s)))"
        by (simp add: forced_plugin_def)
      with n False PathStr show ?thesis
        by (simp add: read_data_with_plugins_def Let_def prepend_simps fg)
    next
      case (PathSeq ps)
      with n False show ?thesis
        by (simp add: read_data_with_plugins_def prepend_simps fg)
    qed
  qed
qed

lemma read_unforced_not_none:
  "fst (read_unforced env path) \<noteq> Inr (PyNone, h)"
  by (auto simp: read_unforced_def split: prod.splits sum.splits path.splits list.splits)

lemma read_unforced_raises:
  assumes "no_reader_reads env path"
  shows "fst (read_unforced env path) \<noteq> Inr (d, h)"
proof (cases "read_loop env path loop_start")
  case (Pair r t)
  show ?thesis
  proof (cases r)
    case (Inl e)
    with Pair show ?thesis by (simp add: read_unforced_def)
  next
    case (Inr st)
    from read_loop_falsy [OF no_reader_reads_nth [OF assms], of loop_start st] Pair Inr
    have "\<not> truthy (cur_layer_data st)"
      by (simp add: loop_start_def)
    with Pair Inr show ?thesis
      by (simp add: read_unforced_def split: path.splits list.splits)
  qed
qed

lemma read_unforced_value_error:
  assumes "no_reader_reads env path" and "hooks_return env path"
  shows "fst (read_unforced env path) =
     (case path of
        PathStr s \<Rightarrow> Inl (ValueError (NoPluginFoundSingle path))
      | PathSeq [] \<Rightarrow> Inl IndexError
      | PathSeq (q # qs) \<Rightarrow> Inl (ValueError (NoPluginFoundStack q)))"
proof -
  from read_loop_returns [OF hooks_return_nth [OF assms(2)], of loop_start]
  obtain st where st: "fst (read_loop env path loop_start) = Inr st" ..
  from read_loop_falsy [OF no_reader_reads_nth [OF assms(1)], of loop_start st] st
  have "\<not> truthy (cur_layer_data st)"
    by (simp add: loop_start_def)
  with st show ?thesis
    by (cases "read_loop env path loop_start")
      (simp add: read_unforced_def split: path.splits list.splits)
qed

lemma read_loop_hook_raises:
  assumes i: "i < length (napari_get_reader env)"
    and r: "snd (napari_get_reader env ! i) path = Inl e'"
    and p: "\<forall>j < i. passes_on env path j"
  shows "i \<notin> set (skip_impls st) \<longrightarrow> fst (read_loop env path st) = Inl (wrap_hook_error i e')"
proof (induction st rule: read_loop_induct [of env path])
  case (step st)
  have below: "k < i" "passes_on env path k"
    if "k \<notin> set (skip_impls st)" "snd (napari_get_reader env ! k) path = Inr (Some reader)"
      "\<forall>j < k. j \<in> set (skip_impls st) \<or> snd (napari_get_reader env ! j) path = Inr None"
      "i \<notin> set (skip_impls st)"
    for k reader
  proof -
    from that(2) r have "k \<noteq> i" by auto
    moreover from that(3,4) r have "\<not> i < k" by auto
    ultimately show "k < i" by simp
    with p show "passes_on env path k" by simp
  qed
  show ?case
  proof (cases rule: read_loop_cases [of env path st])
    case (hook_raises e t)
    from call_with_result_obj_raises [OF hook_raises(1)]
    obtain k e'' where k: "k < length (napari_get_reader env)" "k \<notin> set (skip_impls st)"
      "snd (napari_get_reader env ! k) path = Inl e''" "e = wrap_hook_error k e''"
      "\<forall>j < k. j \<in> set (skip_impls st) \<or> snd (napari_get_reader env ! j) path = Inr None"
      by blast
    show ?thesis
    proof (intro impI)
      assume ns: "i \<notin> set (skip_impls st)"
      from k(5) ns r have "\<not> i < k" by auto
      moreover have "\<not> k < i"
      proof
        assume "k < i"
        with p have "passes_on env path k" by simp
        with k(3) show False by (simp add: passes_on_def)
      qed
      ultimately have "k = i" by simp
      with k(3,4) r hook_raises(2) show "fst (read_loop env path st) = Inl (wrap_hook_error i e')"
        by simp
    qed
  next
    case (out_of_readers t)
    from call_with_result_obj_none [OF out_of_readers(1)] i r
    show ?thesis by auto
  next
    case (truthy reader k t d)
    note res = call_with_result_obj_result [OF truthy(1)]
    show ?thesis
    proof (intro impI)
      assume ns: "i \<notin> set (skip_impls st)"
      from res ns below [of k reader] have "passes_on env path k" by simp
      with res truthy(2,3) have False by (simp add: passes_on_def)
      then show "fst (read_loop env path st) = Inl (wrap_hook_error i e')" ..
    qed
  next
    case (interrupted reader k t exc)
    note res = call_with_result_obj_result [OF interrupted(1)]
    show ?thesis
    proof (intro impI)
      assume ns: "i \<notin> set (skip_impls st)"
      from res ns below [of k reader] have "passes_on env path k" by simp
      with res interrupted(2,3) have False by (simp add: passes_on_def)
      then show "fst (read_loop env path st) = Inl (wrap_hook_error i e')" ..
    qed
  next
    case (falsy reader k t d)
    note res = call_with_result_obj_result [OF falsy(1)]
    show ?thesis
    proof (intro impI)
      assume ns: "i \<notin> set (skip_impls st)"
      from res ns below [of k reader] have "k < i" by simp
      with ns step.IH(1) [OF falsy(1,2,3)] falsy(4)
      show "fst (read_loop env path st) = Inl (wrap_hook_error i e')"
        by (simp add: prepend_simps)
    qed
  next
    case (failed reader k t exc)
    note res = call_with_result_obj_result [OF failed(1)]
    show ?thesis
    proof (intro impI)
      assume ns: "i \<notin> set (skip_impls st)"
      from res ns below [of k reader] have "k < i" by simp
      with ns step.IH(2) [OF failed(1,2,3)] failed(4)
      show "fst (read_loop env path st) = Inl (wrap_hook_error i e')"
        by (simp add: prepend_simps)
    qed
  qed
qed

lemma read_unforced_hook_raises:
  assumes "i < length (napari_get_reader env)"
    and "snd (napari_get_reader env ! i) path = Inl e'"
    and "list_all (passes_on env path) [0..<i]"
  shows "fst (read_unforced env path) = Inl (wrap_hook_error i e')"
proof -
  from assms(3) have "\<forall>j < i. passes_on env path j"
    by (simp add: list_all_iff)
  from read_loop_hook_raises [OF assms(1,2) this, of loop_start]
  have "fst (read_loop env path loop_start) = Inl (wrap_hook_error i e')"
    by (simp add: loop_start_def)
  then show ?thesis
    by (cases "read_loop env path loop_start") (simp add: read_unforced_def)
qed

lemma wrap_hook_error_not_value_error: "\<not> is_ValueError (wrap_hook_error i e)"
  by (cases e) (simp_all add: wrap_hook_error_def)

text \<open>
  C5, as amended. Suppose the npe2 attempt yields nothing and no plugin is forced (none
  is named and the extension table names none). Then \<open>read_data_with_plugins\<close> never
  returns \<open>None\<close> layer data. If moreover no candidate reader returns truthy layer
  data, it does not return at all: it raises. What it raises is \<open>ValueError\<close>, with
  the message for a single path or the message for a stack naming the first path of a
  list that is not empty, provided every \<open>napari_get_reader\<close> implementation returns
  and no reader raises an exception outside \<open>Exception\<close>. When instead an
  implementation of \<open>napari_get_reader\<close> raises, and the loop passes on from every
  implementation before it, the function raises what the hook caller makes of that
  exception, a \<open>PluginCallError\<close> naming the implementation around an \<open>Exception\<close>
  and the exception itself otherwise: never a \<open>ValueError\<close>.
\<close>

theorem unreadable_path_raises:
  "fst (read_with_npe2 env path plugin) = Inr None \<and> \<not> name_given (forced_plugin env path plugin)
   \<longrightarrow> (\<forall>h. fst (read_data_with_plugins env path plugin) \<noteq> Inr (PyNone, h))
     \<and> (no_reader_reads env (abspath_or_url env path)
         \<longrightarrow> (\<forall>d h. fst (read_data_with_plugins env path plugin) \<noteq> Inr (d, h)))
     \<and> (no_reader_reads env (abspath_or_url env path) \<and> hooks_return env (abspath_or_url env path)
         \<longrightarrow> (\<forall>s. abspath_or_url env path = PathStr s
               \<longrightarrow> fst (read_data_with_plugins env path plugin)
                   = Inl (ValueError (NoPluginFoundSingle (PathStr s))))
           \<and> (\<forall>q qs. abspath_or_url env path = PathSeq (q # qs)
               \<longrightarrow> fst (read_data_with_plugins env path plugin)
                   = Inl (ValueError (NoPluginFoundStack q))))
     \<and> (\<forall>i e'. i < length (napari_get_reader env)
           \<and> snd (napari_get_reader env ! i) (abspath_or_url env path) = Inl e'
           \<and> list_all (passes_on env (abspath_or_url env path)) [0..<i]
         \<longrightarrow> fst (read_data_with_plugins env path plugin)
               = Inl (if is_Exception e' then PluginCallError (Some i) e' else e')
           \<and> \<not> is_ValueError (if is_Exception e' then PluginCallError (Some i) e' else e'))"
proof (intro impI)
  assume a: "fst (read_with_npe2 env path plugin) = Inr None \<and> \<not> name_given (forced_plugin env path plugin)"
  then have u: "fst (read_data_with_plugins env path plugin) = fst (read_unforced env (abspath_or_url env path))"
    by (simp add: read_data_unforced)
  have hook: "fst (read_unforced env (abspath_or_url env path))
               = Inl (if is_Exception e' then PluginCallError (Some i) e' else e')
           \<and> \<not> is_ValueError (if is_Exception e' then PluginCallError (Some i) e' else e')"
    if "i < length (napari_get_reader env)
           \<and> snd (napari_get_reader env ! i) (abspath_or_url env path) = Inl e'
           \<and> list_all (passes_on env (abspath_or_url env path)) [0..<i]" for i e'
    using that read_unforced_hook_raises [of i env "abspath_or_url env path" e']
      wrap_hook_error_not_value_error [of i e']
    by (simp add: wrap_hook_error_def)
  have first: "(\<forall>h. fst (read_unforced env (abspath_or_url env path)) \<noteq> Inr (PyNone, h))
     \<and> (no_reader_reads env (abspath_or_url env path)
         \<longrightarrow> (\<forall>d h. fst (read_unforced env (abspath_or_url env path)) \<noteq> Inr (d, h)))
     \<and> (no_reader_reads env (abspath_or_url env path) \<and> hooks_return env (abspath_or_url env path)
         \<longrightarrow> (\<forall>s. abspath_or_url env path = PathStr s
               \<longrightarrow> fst (read_unforced env (abspath_or_url env path))
                   = Inl (ValueError (NoPluginFoundSingle (PathStr s))))
           \<and> (\<forall>q qs. abspath_or_url env path = PathSeq (q # qs)
               \<longrightarrow> fst (read_unforced env (abspath_or_url env path))
                   = Inl (ValueError (NoPluginFoundStack q))))"
    using read_unforced_not_none [of env "abspath_or_url env path"]
      read_unforced_raises [of env "abspath_or_url env path"]
      read_unforced_value_error [of env "abspath_or_url env path"]
    by auto
  show "(\<forall>h. fst (read_data_with_plugins env path plugin) \<noteq> Inr (PyNone, h))
     \<and> (no_reader_reads env (abspath_or_url env path)
         \<longrightarrow> (\<forall>d h. fst (read_data_with_plugins env path plugin) \<noteq> Inr (d, h)))
     \<and> (no_reader_reads env (abspath_or_url env path) \<and> hooks_return env (abspath_or_url env path)
         \<longrightarrow> (\<forall>s. abspath_or_url env path = PathStr s
               \<longrightarrow> fst (read_data_with_plugins env path plugin)
                   = Inl (ValueError (NoPluginFoundSingle (PathStr s))))
           \<and> (\<forall>q qs. abspath_or_url env path = PathSeq (q # qs)
               \<longrightarrow> fst (read_data_with_plugins env path plugin)
                   = Inl (ValueError (NoPluginFoundStack q))))
     \<and> (\<forall>i e'. i < length (napari_get_reader env)
           \<and> snd (napari_get_reader env ! i) (abspath_or_url env path) = Inl e'
           \<and> list_all (passes_on env (abspath_or_url env path)) [0..<i]
         \<longrightarrow> fst (read_data_with_plugins env path plugin)
               = Inl (if is_Exception e' then PluginCallError (Some i) e' else e')
           \<and> \<not> is_ValueError (if is_Exception e' then PluginCallError (Some i) e' else e'))"
    unfolding u using first hook by blast
qed

text \<open>
  C5 as stated fails in two ways. A \<open>napari_get_reader\<close> implementation that raises
  makes the hook caller raise a \<open>PluginCallError\<close>, and that exception, not
  \<open>ValueError\<close>, leaves the function although no reader returned truthy data. And for
  the empty list of paths the message is built from \<open>path[0]\<close>, which raises
  \<open>IndexError\<close>.
\<close>

theorem unreadable_path_value_error_counterexample:
  "fst (read_with_npe2 failing_hook_env (PathStr ''a.tif'') None) = Inr None
   \<and> \<not> name_given (forced_plugin failing_hook_env (PathStr ''a.tif'') None)
   \<and> no_reader_reads failing_hook_env (abspath_or_url failing_hook_env (PathStr ''a.tif''))
   \<and> fst (read_data_with_plugins failing_hook_env (PathStr ''a.tif'') None)
       = Inl (PluginCallError (Some 0) (PluginError ''boom''))
   \<and> \<not> is_ValueError (PluginCallError (Some 0) (PluginError ''boom''))
   \<and> fst (read_with_npe2 unreadable_env (PathSeq []) None) = Inr None
   \<and> \<not> name_given (forced_plugin unreadable_env (PathSeq []) None)
   \<and> no_reader_reads unreadable_env (abspath_or_url unreadable_env (PathSeq []))
   \<and> fst (read_data_with_plugins unreadable_env (PathSeq []) None) = Inl IndexError
   \<and> \<not> is_ValueError IndexError"
  by code_simp

theorem unreadable_path_raises_witness:
  "fst (read_with_npe2 unreadable_env (PathStr ''a.tif'') None) = Inr None
   \<and> \<not> name_given (forced_plugin unreadable_env (PathStr ''a.tif'') None)
   \<and> no_reader_reads unreadable_env (PathStr ''a.tif'')
   \<and> hooks_return unreadable_env (PathStr ''a.tif'')
   \<and> abspath_or_url unreadable_env (PathStr ''a.tif'') = PathStr ''a.tif''
   \<and> fst (read_data_with_plugins unreadable_env (PathStr ''a.tif'') None)
       = Inl (ValueError (NoPluginFoundSingle (PathStr ''a.tif'')))
   \<and> fst (read_with_npe2 unreadable_env (PathSeq [''a.tif'', ''b.tif'']) None) = Inr None
   \<and> \<not> name_given (forced_plugin unreadable_env (PathSeq [''a.tif'', ''b.tif'']) None)
   \<and> no_reader_reads unreadable_env (PathSeq [''a.tif'', ''b.tif''])
   \<and> hooks_return unreadable_env (PathSeq [''a.tif'', ''b.tif''])
   \<and> abspath_or_url unreadable_env (PathSeq [''a.tif'', ''b.tif'']) = PathSeq [''a.tif'', ''b.tif'']
   \<and> fst (read_data_with_plugins unreadable_env (PathSeq [''a.tif'', ''b.tif'']) None)
       = Inl (ValueError (NoPluginFoundStack ''a.tif''))
   \<and> fst (read_with_npe2 late_failing_env (PathStr ''a.tif'') None) = Inr None
   \<and> \<not> name_given (forced_plugin late_failing_env (PathStr ''a.tif'') None)
   \<and> abspath_or_url late_failing_env (PathStr ''a.tif'') = PathStr ''a.tif''
   \<and> 3 < length (napari_get_reader late_failing_env)
   \<and> snd (napari_get_reader late_failing_env ! 3) (PathStr ''a.tif'') = Inl (PluginError ''boom'')
   \<and> list_all (passes_on late_failing_env (PathStr ''a.tif'')) [0..<3]
   \<and> is_Exception (PluginError ''boom'')
   \<and> fst (read_data_with_plugins late_failing_env (PathStr ''a.tif'') None)
       = Inl (PluginCallError (Some 3) (PluginError ''boom''))"
proof -
  let ?p = "PathStr ''a.tif''"
  let ?q = "PathSeq [''a.tif'', ''b.tif'']"
  have n1: "fst (read_with_npe2 unreadable_env ?p None) = Inr None"
    and f1: "\<not> name_given (forced_plugin unreadable_env ?p None)"
    and r1: "no_reader_reads unreadable_env ?p"
    and h1: "hooks_return unreadable_env ?p"
    and a1: "abspath_or_url unreadable_env ?p = ?p"
    by code_simp+
  have n2: "fst (read_with_npe2 unreadable_env ?q None) = Inr None"
    and f2: "\<not> name_given (forced_plugin unreadable_env ?q None)"
    and r2: "no_reader_reads unreadable_env ?q"
    and h2: "hooks_return unreadable_env ?q"
    and a2: "abspath_or_url unreadable_env ?q = ?q"
    by code_simp+
  from unreadable_path_raises [of unreadable_env ?p None] n1 f1 r1 h1 a1
  have 1: "fst (read_data_with_plugins unreadable_env ?p None)
       = Inl (ValueError (NoPluginFoundSingle ?p))"
    by simp
  from unreadable_path_raises [of unreadable_env ?q None] n2 f2 r2 h2 a2
  have 2: "fst (read_data_with_plugins unreadable_env ?q None)
       = Inl (ValueError (NoPluginFoundStack ''a.tif''))"
    by simp
  have n3: "fst (read_with_npe2 late_failing_env ?p None) = Inr None"
    and f3: "\<not> name_given (forced_plugin late_failing_env ?p None)"
    and a3: "abspath_or_url late_failing_env ?p = ?p"
    and l3: "3 < length (napari_get_reader late_failing_env)"
    and p3: "list_all (passes_on late_failing_env ?p) [0..<3]"
    and x3: "is_Exception (PluginError ''boom'')"
    by code_simp+
  have r3: "snd (napari_get_reader late_failing_env ! 3) ?p = Inl (PluginError ''boom'')"
    by (simp add: late_failing_env_def demo_env_def demo_readers_def)
  from unreadable_path_raises [of late_failing_env ?p None] n3 f3
  have "\<forall>i e'. i < length (napari_get_reader late_failing_env)
           \<and> snd (napari_get_reader late_failing_env ! i) (abspath_or_url late_failing_env ?p) = Inl e'
           \<and> list_all (passes_on late_failing_env (abspath_or_url late_failing_env ?p)) [0..<i]
         \<longrightarrow> fst (read_data_with_plugins late_failing_env ?p None)
               = Inl (if is_Exception e' then PluginCallError (Some i) e' else e')
           \<and> \<not> is_ValueError (if is_Exception e' then PluginCallError (Some i) e' else e')"
    by blast
  then have "3 < length (napari_get_reader late_failing_env)
           \<and> snd (napari_get_reader late_failing_env ! 3) (abspath_or_url late_failing_env ?p)
               = Inl (PluginError ''boom'')
           \<and> list_all (passes_on late_failing_env (abspath_or_url late_failing_env ?p)) [0..<3]
         \<longrightarrow> fst (read_data_with_plugins late_failing_env ?p None)
               = Inl (if is_Exception (PluginError ''boom'')
                      then PluginCallError (Some 3) (PluginError ''boom'') else PluginError ''boom'')
           \<and> \<not> is_ValueError (if is_Exception (PluginError ''boom'')
                      then PluginCallError (Some 3) (PluginError ''boom'') else PluginError ''boom'')"
    by blast
  with l3 r3 p3 a3 have 3: "fst (read_data_with_plugins late_failing_env ?p None)
       = Inl (PluginCallError (Some 3) (PluginError ''boom''))"
    by simp
  show ?thesis
    by (intro conjI n1 f1 r1 h1 a1 1 n2 f2 r2 h2 a2 2 n3 f3 a3 l3 r3 p3 x3 3)
qed

section \<open>The order of the reader calls\<close>

























end
